theory Spec2Isabelle
  imports Main "HOL-Library.Word"
begin

section \<open>Go library functions used by runtime/context.go\<close>

text \<open>
  Go strings are byte sequences; they are modelled as \<open>string\<close> (a list of 8-bit
  \<open>char\<close>s). \<open>len(s)\<close> is \<open>length s\<close>, \<open>s[i]\<close> is \<open>s ! i\<close> (only read in range),
  \<open>s[:i]\<close> is \<open>take i s\<close> and \<open>s[i:]\<close> is \<open>drop i s\<close>.
\<close>

subsection \<open>time.Duration\<close>

text \<open>\<open>time.Duration\<close> is an \<open>int64\<close> count of nanoseconds; its arithmetic wraps.\<close>

type_synonym duration = "64 word"

definition Nanosecond :: duration where "Nanosecond = 1"
definition Microsecond :: duration where "Microsecond = 1000 * Nanosecond"
definition Millisecond :: duration where "Millisecond = 1000 * Microsecond"
definition Second :: duration where "Second = 1000 * Millisecond"
definition Minute :: duration where "Minute = 60 * Second"
definition Hour :: duration where "Hour = 60 * Minute"

subsection \<open>strconv.ParseInt(s, 10, 64)\<close>

datatype num_error = ErrSyntax | ErrRange

text \<open>The byte value of a character, as the comparisons of \<open>ParseUint\<close> read it.\<close>

definition byte :: "char \<Rightarrow> nat" where
  "byte c = of_char c"

text \<open>\<open>lower(c) = c | ('x' - 'X')\<close> on a byte.\<close>

definition lower :: "char \<Rightarrow> nat" where
  "lower c = unat (or (of_nat (byte c) :: 8 word) 32)"

text \<open>
  The digit switch of \<open>ParseUint\<close>: the value \<open>d\<close> of one character, or \<open>None\<close> in
  the \<open>default\<close> branch (a syntax error). The underscore case needs \<open>base == 0\<close> and
  is never taken with base 10.
\<close>

definition digit_of :: "char \<Rightarrow> nat option" where
  "digit_of c =
     (if 48 \<le> byte c \<and> byte c \<le> 57 then Some (byte c - 48)
      else if 97 \<le> lower c \<and> lower c \<le> 122 then Some (lower c - 97 + 10)
      else None)"

text \<open>\<open>cutoff = maxUint64/10 + 1\<close> and \<open>maxVal = 1<<64 - 1\<close>.\<close>

definition uint_cutoff :: "64 word" where
  "uint_cutoff = 1844674407370955162"

definition maxVal :: "64 word" where
  "maxVal = - 1"

text \<open>
  The loop of \<open>ParseUint\<close> over the bytes of \<open>s\<close>, with the accumulator \<open>n\<close>
  (a \<open>uint64\<close>). It returns the value and the error, as the Go function does.
\<close>

fun ParseUint_loop :: "string \<Rightarrow> 64 word \<Rightarrow> 64 word \<times> num_error option" where
  "ParseUint_loop [] n = (n, None)"
| "ParseUint_loop (c # cs) n =
     (case digit_of c of
        None \<Rightarrow> (0, Some ErrSyntax)
      | Some d \<Rightarrow>
          if d \<ge> 10 then (0, Some ErrSyntax)
          else if n \<ge> uint_cutoff then (maxVal, Some ErrRange)
          else
            (let n' = n * 10;
                 n1 = n' + of_nat d
             in if n1 < n' \<or> n1 > maxVal then (maxVal, Some ErrRange)
                else ParseUint_loop cs n1))"

definition ParseUint :: "string \<Rightarrow> 64 word \<times> num_error option" where
  "ParseUint s = (if s = [] then (0, Some ErrSyntax) else ParseUint_loop s 0)"

text \<open>
  \<open>ParseInt\<close>: an optional sign, then \<open>ParseUint\<close>, then the range check against
  \<open>cutoff = 1 << 63\<close>. Only the error and, on success, the value are kept.
\<close>

definition int_cutoff :: "64 word" where
  "int_cutoff = 9223372036854775808"

definition ParseInt :: "string \<Rightarrow> num_error + 64 word" where
  "ParseInt s =
     (if s = [] then Inl ErrSyntax
      else
        (let neg = (s ! 0 = CHR ''-'');
             s' = (if s ! 0 = CHR ''+'' then drop 1 s
                   else if s ! 0 = CHR ''-'' then drop 1 s else s);
             (un, err) = ParseUint s'
         in if err \<noteq> None \<and> err \<noteq> Some ErrRange then Inl ErrSyntax
            else if \<not> neg \<and> un \<ge> int_cutoff then Inl ErrRange
            else if neg \<and> un > int_cutoff then Inl ErrRange
            else Inr (if neg then - un else un)))"

subsection \<open>strings.HasPrefix, strings.ToLower, net/http Header.Get\<close>

definition HasPrefix :: "string \<Rightarrow> string \<Rightarrow> bool" where
  "HasPrefix s p = (length s \<ge> length p \<and> take (length p) s = p)"

text \<open>
  \<open>strings.ToLower\<close> on bytes: \<open>'A'..'Z'\<close> move to \<open>'a'..'z'\<close> and every other
  byte stays. (On text that is not ASCII the Go function maps letters of other
  alphabets as well; the source applies it to the two ASCII header names below.)
\<close>

definition ToLower_byte :: "char \<Rightarrow> char" where
  "ToLower_byte c = (if 65 \<le> byte c \<and> byte c \<le> 90 then char_of (byte c + 32) else c)"

definition ToLower :: "string \<Rightarrow> string" where
  "ToLower s = map ToLower_byte s"

text \<open>
  \<open>http.Header\<close> is a \<open>map[string][]string\<close>. A Go map is ranged over in an order
  the language leaves open, so the header is an association list in the order the
  \<open>range\<close> loop visits it. \<open>Header.Get\<close> returns the first value stored under the
  (canonical) key, or the empty string; the three keys the source looks up are in
  canonical form already.
\<close>

type_synonym header = "(string \<times> string list) list"

definition Header_Get :: "header \<Rightarrow> string \<Rightarrow> string" where
  "Header_Get h key =
     (case map_of h key of
        None \<Rightarrow> []
      | Some v \<Rightarrow> (if length v = 0 then [] else v ! 0))"

subsection \<open>net.SplitHostPort\<close>

text \<open>
  \<open>SplitHostPort\<close> of the Go standard library splits \<open>host:port\<close> and
  \<open>[host]:port\<close>. An \<open>AddrError\<close> is kept as its message.
\<close>

fun IndexByteString :: "string \<Rightarrow> char \<Rightarrow> nat option" where
  "IndexByteString [] c = None"
| "IndexByteString (x # xs) c =
     (if x = c then Some 0 else map_option Suc (IndexByteString xs c))"

text \<open>\<open>last(s, b)\<close>: the index of the last \<open>b\<close> in \<open>s\<close>; \<open>None\<close> stands for \<open>-1\<close>.\<close>

fun last_index :: "string \<Rightarrow> char \<Rightarrow> nat option" where
  "last_index [] c = None"
| "last_index (x # xs) c =
     (case last_index xs c of
        Some i \<Rightarrow> Some (Suc i)
      | None \<Rightarrow> (if x = c then Some 0 else None))"

text \<open>The checks after the host has been cut out; \<open>j\<close>, \<open>k\<close> and \<open>i\<close> as in the Go code.\<close>

definition SplitHostPort_tail ::
  "string \<Rightarrow> string \<Rightarrow> nat \<Rightarrow> nat \<Rightarrow> nat \<Rightarrow> string + (string \<times> string)" where
  "SplitHostPort_tail hostport host j k i =
     (if IndexByteString (drop j hostport) (CHR ''['') \<noteq> None
        then Inl ''unexpected '[' in address''
      else if IndexByteString (drop k hostport) (CHR '']'') \<noteq> None
        then Inl ''unexpected ']' in address''
      else Inr (host, drop (i + 1) hostport))"

definition SplitHostPort :: "string \<Rightarrow> string + (string \<times> string)" where
  "SplitHostPort hostport =
     (case last_index hostport (CHR '':'') of
        None \<Rightarrow> Inl ''missing port in address''
      | Some i \<Rightarrow>
          if hostport ! 0 = CHR ''['' then
            (case IndexByteString hostport (CHR '']'') of
               None \<Rightarrow> Inl ''missing ']' in address''
             | Some e \<Rightarrow>
                 if e + 1 = length hostport then Inl ''missing port in address''
                 else if e + 1 = i then
                   SplitHostPort_tail hostport (drop 1 (take e hostport)) 1 (e + 1) i
                 else if hostport ! (e + 1) = CHR '':'' then Inl ''too many colons in address''
                 else Inl ''missing port in address'')
          else
            (let host = take i hostport
             in if IndexByteString host (CHR '':'') \<noteq> None
                  then Inl ''too many colons in address''
                else SplitHostPort_tail hostport host 0 0 i))"

section \<open>Contexts, call metadata and errors\<close>

text \<open>
  The packages \<open>metadata\<close>, \<open>context\<close>, \<open>grpc\<close> and \<open>codes\<close> that the source
  imports are not among the sources. What the source uses of them is modelled from
  the specification, each definition with the words it follows.
\<close>

subsection \<open>Package metadata\<close>

text \<open>
  Modelled from the spec: the type \<open>metadata.MD\<close>. A metadata set is an ordered
  sequence of (key, value) string pairs; keys need not be unique and duplicates are
  kept.
\<close>

type_synonym MD = "(string \<times> string) list"

text \<open>
  Modelled from the spec: \<open>metadata.Pairs\<close>, which builds a metadata set from the
  pairs; keys are lower-cased before they are placed in the set. The source passes
  the flat list \<open>k1, v1, k2, v2, ...\<close>; a list of odd length is no list of pairs, and
  the result is then \<open>None\<close>.
\<close>

fun Pairs :: "string list \<Rightarrow> MD option" where
  "Pairs [] = Some []"
| "Pairs [k] = None"
| "Pairs (k # v # kv) = map_option (\<lambda>md. (ToLower k, v) # md) (Pairs kv)"

subsection \<open>Package context\<close>

text \<open>
  Modelled from the spec: the type \<open>context.Context\<close>. A context is the chain of its
  derivations from a root: a derived context holds one binding of a key to a value,
  or one deadline, over its parent. The keys are the private key of this package,
  the key of the metadata package, and any other; the values are the carrier of
  this package, a metadata set, and any other. Instants are integers (nanoseconds
  on some clock).
\<close>

datatype context_key = serverMetadataKey | mdKey | otherKey nat

text \<open>The struct \<open>ServerMetadata\<close> of runtime/context.go (lines 92 to 95).\<close>

record ServerMetadata =
  HeaderMD :: MD
  TrailerMD :: MD

datatype context_value =
    ServerMetadataValue ServerMetadata
  | MDValue MD
  | otherValue nat

datatype "context" =
    Background
  | WithValue "context" context_key context_value
  | WithDeadline "context" int

text \<open>
  Modelled from the spec: the method \<open>Value\<close> of a context, which looks a binding up
  on this context or an ancestor; the binding nearest to the context is found first.
\<close>

fun Value :: "context \<Rightarrow> context_key \<Rightarrow> context_value option" where
  "Value Background key = None"
| "Value (WithValue parent k v) key = (if key = k then Some v else Value parent key)"
| "Value (WithDeadline parent d) key = Value parent key"

text \<open>
  Modelled from the spec: the method \<open>Deadline\<close> of a context. A child context
  derived with a deadline has that deadline; a binding leaves the deadline as it is.
\<close>

fun Deadline :: "context \<Rightarrow> int option" where
  "Deadline Background = None"
| "Deadline (WithValue parent k v) = Deadline parent"
| "Deadline (WithDeadline parent d) = Some d"

text \<open>
  Modelled from the spec: \<open>context.WithTimeout\<close>, which derives a child context with
  a deadline equal to now plus the timeout. The reading \<open>now\<close> of the clock is an
  argument.
\<close>

definition WithTimeout :: "int \<Rightarrow> context \<Rightarrow> duration \<Rightarrow> context" where
  "WithTimeout now ctx timeout = WithDeadline ctx (now + sint timeout)"

text \<open>
  Modelled from the spec: \<open>metadata.NewContext\<close>, which attaches a metadata set to
  the context as the outbound call metadata.
\<close>

definition NewContext :: "context \<Rightarrow> MD \<Rightarrow> context" where
  "NewContext ctx md = WithValue ctx mdKey (MDValue md)"

text \<open>
  Modelled from the spec: the reading of the attached metadata set, which yields
  absent (\<open>None\<close>) when no set is attached.
\<close>

definition FromContext :: "context \<Rightarrow> MD option" where
  "FromContext ctx =
     (case Value ctx mdKey of
        Some (MDValue md) \<Rightarrow> Some md
      | _ \<Rightarrow> None)"

subsection \<open>Packages grpc and codes\<close>

text \<open>
  Modelled from the spec: the error that \<open>grpc.Errorf\<close> builds, an error of a class
  (the code) that carries a message.
\<close>

datatype code = OK | Canceled | Unknown | InvalidArgument | DeadlineExceeded

datatype rpc_error = RpcError code string

section \<open>runtime/context.go\<close>

subsection \<open>The timeout codec\<close>

text \<open>
  Lines 110 to 143. The error of \<open>timeoutDecode\<close> is one of its two formatted
  messages, with the string, or the error of \<open>ParseInt\<close>.
\<close>

datatype timeout_error =
    TooShort string
  | UnitNotRecognized string
  | NumError num_error

definition timeoutUnitToDuration :: "char \<Rightarrow> duration \<times> bool" where
  "timeoutUnitToDuration u =
     (if u = CHR ''H'' then (Hour, True)
      else if u = CHR ''M'' then (Minute, True)
      else if u = CHR ''S'' then (Second, True)
      else if u = CHR ''m'' then (Millisecond, True)
      else if u = CHR ''u'' then (Microsecond, True)
      else if u = CHR ''n'' then (Nanosecond, True)
      else (0, False))"

definition timeoutDecode :: "string \<Rightarrow> timeout_error + duration" where
  "timeoutDecode s =
     (let size = length s
      in if size < 2 then Inl (TooShort s)
         else
           (let (d, ok) = timeoutUnitToDuration (s ! (size - 1))
            in if \<not> ok then Inl (UnitNotRecognized s)
               else
                 (case ParseInt (take (size - 1) s) of
                    Inl err \<Rightarrow> Inl (NumError err)
                  | Inr t \<Rightarrow> Inr (d * t))))"

subsection \<open>Annotating the context of a call\<close>

definition MetadataHeaderPrefix :: string where
  "MetadataHeaderPrefix = ''Grpc-Metadata-''"

definition metadataGrpcTimeout :: string where
  "metadataGrpcTimeout = ''Grpc-Timeout''"

definition xForwardedFor :: string where
  "xForwardedFor = ''X-Forwarded-For''"

definition xForwardedHost :: string where
  "xForwardedHost = ''X-Forwarded-Host''"

text \<open>The fields of \<open>*http.Request\<close> that \<open>AnnotateContext\<close> reads.\<close>

record Request =
  Header :: header
  Host :: string
  RemoteAddr :: string

text \<open>
  Lines 44 to 51: the timeout of the call, the default unless the request has a
  non-empty \<open>Grpc-Timeout\<close> value, which is then decoded.
\<close>

definition effective_timeout :: "duration \<Rightarrow> Request \<Rightarrow> timeout_error + duration" where
  "effective_timeout DefaultContextTimeout req =
     (let tm = Header_Get (Header req) metadataGrpcTimeout
      in if tm \<noteq> [] then timeoutDecode tm else Inr DefaultContextTimeout)"

text \<open>Lines 54 to 62: the inner loop over the values of one header.\<close>

fun vals_loop :: "string \<Rightarrow> string list \<Rightarrow> string list \<Rightarrow> string list" where
  "vals_loop key [] pairs = pairs"
| "vals_loop key (val # vals) pairs =
     (if key = ''Authorization'' then vals_loop key vals (pairs @ [''authorization'', val])
      else if HasPrefix key MetadataHeaderPrefix
        then vals_loop key vals (pairs @ [drop (length MetadataHeaderPrefix) key, val])
      else vals_loop key vals pairs)"

text \<open>Lines 53 to 63: the loop over the header map.\<close>

fun header_loop :: "header \<Rightarrow> string list \<Rightarrow> string list" where
  "header_loop [] pairs = pairs"
| "header_loop ((key, vals) # rest) pairs = header_loop rest (vals_loop key vals pairs)"

text \<open>Lines 64 to 68.\<close>

definition forwarded_host :: "Request \<Rightarrow> string list \<Rightarrow> string list" where
  "forwarded_host req pairs =
     (let host = Header_Get (Header req) xForwardedHost
      in if host \<noteq> [] then pairs @ [ToLower xForwardedHost, host]
         else if Host req \<noteq> [] then pairs @ [ToLower xForwardedHost, Host req]
         else pairs)"

text \<open>Lines 70 to 80; the second component is what \<open>grpclog.Printf\<close> was given.\<close>

definition forwarded_for :: "Request \<Rightarrow> string list \<Rightarrow> string list \<times> string list" where
  "forwarded_for req pairs =
     (let addr = RemoteAddr req
      in if addr \<noteq> [] then
           (case SplitHostPort addr of
              Inr (remoteIP, port) \<Rightarrow>
                (let fwd = Header_Get (Header req) xForwardedFor
                 in if fwd = [] then (pairs @ [ToLower xForwardedFor, remoteIP], [])
                    else (pairs @ [ToLower xForwardedFor, fwd @ '', '' @ remoteIP], []))
            | Inl err \<Rightarrow> (pairs, [''invalid remote addr: '' @ addr]))
         else (pairs, []))"

text \<open>Lines 43 and 53 to 80: the slice \<open>pairs\<close> when line 82 is reached, and the log.\<close>

definition collect_pairs :: "Request \<Rightarrow> string list \<times> string list" where
  "collect_pairs req = forwarded_for req (forwarded_host req (header_loop (Header req) []))"

text \<open>
  What a call of \<open>AnnotateContext\<close> does: it returns its two results, each of which
  may be \<open>nil\<close>, or it panics (inside \<open>metadata.Pairs\<close>).
\<close>

datatype annotate_result =
    Returned "context option" "rpc_error option"
  | Panicked

text \<open>
  \<open>AnnotateContext\<close>, with the package variable \<open>DefaultContextTimeout\<close> and the
  reading of the clock as arguments. The result comes with the log lines written.
\<close>

definition AnnotateContext ::
  "duration \<Rightarrow> int \<Rightarrow> context \<Rightarrow> Request \<Rightarrow> annotate_result \<times> string list" where
  "AnnotateContext DefaultContextTimeout now ctx req =
     (case effective_timeout DefaultContextTimeout req of
        Inl err \<Rightarrow>
          (Returned None
             (Some (RpcError InvalidArgument
                (''invalid grpc-timeout: '' @ Header_Get (Header req) metadataGrpcTimeout))),
           [])
      | Inr timeout \<Rightarrow>
          (let (pairs, logged) = collect_pairs req;
               ctx' = (if timeout \<noteq> 0 then WithTimeout now ctx timeout else ctx)
           in if length pairs = 0 then (Returned (Some ctx') None, logged)
              else
                (case Pairs pairs of
                   None \<Rightarrow> (Panicked, logged)
                 | Some md \<Rightarrow> (Returned (Some (NewContext ctx' md)) None, logged))))"

subsection \<open>Server metadata in the context\<close>

text \<open>Lines 100 to 102; the key is the value \<open>serverMetadataKey{}\<close> of the private type.\<close>

definition NewServerMetadataContext :: "context \<Rightarrow> ServerMetadata \<Rightarrow> context" where
  "NewServerMetadataContext ctx md = WithValue ctx serverMetadataKey (ServerMetadataValue md)"

text \<open>
  Lines 105 to 108. The type assertion \<open>.(ServerMetadata)\<close> gives the zero value
  and \<open>false\<close> when the key is unbound or bound to a value of another type.
\<close>

definition ServerMetadataFromContext :: "context \<Rightarrow> ServerMetadata \<times> bool" where
  "ServerMetadataFromContext ctx =
     (case Value ctx serverMetadataKey of
        Some (ServerMetadataValue md) \<Rightarrow> (md, True)
      | _ \<Rightarrow> (\<lparr>HeaderMD = [], TrailerMD = []\<rparr>, False))"

section \<open>Notions of the specification\<close>

subsection \<open>Timeout tokens\<close>

text \<open>A decimal digit, and the number that a string of decimal digits denotes.\<close>

definition is_digit :: "char \<Rightarrow> bool" where
  "is_digit c = (48 \<le> byte c \<and> byte c \<le> 57)"

definition dec_step :: "nat \<Rightarrow> char \<Rightarrow> nat" where
  "dec_step n c = 10 * n + (byte c - 48)"

definition dec_val :: "string \<Rightarrow> nat" where
  "dec_val ds = foldl dec_step 0 ds"

text \<open>The six unit characters and the nanoseconds of each unit.\<close>

definition is_unit :: "char \<Rightarrow> bool" where
  "is_unit u = (u \<in> set ''HMSmun'')"

definition unit_nanoseconds :: "char \<Rightarrow> int" where
  "unit_nanoseconds u =
     (if u = CHR ''H'' then 3600000000000
      else if u = CHR ''M'' then 60000000000
      else if u = CHR ''S'' then 1000000000
      else if u = CHR ''m'' then 1000000
      else if u = CHR ''u'' then 1000
      else if u = CHR ''n'' then 1
      else 0)"

text \<open>
  The integer that a base-10 literal with an optional sign denotes: a \<open>+\<close> or a \<open>-\<close>,
  then at least one digit.
\<close>

definition int_literal :: "string \<Rightarrow> int option" where
  "int_literal s =
     (case s of
        [] \<Rightarrow> None
      | c # cs \<Rightarrow>
          if c = CHR ''+'' then
            (if cs \<noteq> [] \<and> list_all is_digit cs then Some (int (dec_val cs)) else None)
          else if c = CHR ''-'' then
            (if cs \<noteq> [] \<and> list_all is_digit cs then Some (- int (dec_val cs)) else None)
          else if list_all is_digit s then Some (int (dec_val s))
          else None)"

text \<open>The number that a literal of digits only denotes.\<close>

definition nonneg_literal :: "string \<Rightarrow> nat option" where
  "nonneg_literal s = (if s \<noteq> [] \<and> list_all is_digit s then Some (dec_val s) else None)"

text \<open>
  The failure condition in the words of the specification: the token is shorter than
  2, or its final character is no unit, or the prefix is no non-negative base-10
  integer of the 64-bit range.
\<close>

definition claimed_decode_failure :: "string \<Rightarrow> bool" where
  "claimed_decode_failure s =
     (length s < 2 \<or> \<not> is_unit (last s) \<or>
      (case nonneg_literal (butlast s) of None \<Rightarrow> True | Some n \<Rightarrow> 2 ^ 63 \<le> n))"

text \<open>The same condition with a signed literal of the signed 64-bit range.\<close>

definition decode_failure :: "string \<Rightarrow> bool" where
  "decode_failure s =
     (length s < 2 \<or> \<not> is_unit (last s) \<or>
      (case int_literal (butlast s) of
         None \<Rightarrow> True
       | Some i \<Rightarrow> i < - (2 ^ 63) \<or> 2 ^ 63 \<le> i))"

text \<open>Two auxiliary views of \<open>ParseInt\<close>: the text after the sign, and the range check.\<close>

definition unsigned_part :: "string \<Rightarrow> string" where
  "unsigned_part s = (if hd s = CHR ''+'' \<or> hd s = CHR ''-'' then tl s else s)"

definition range_check :: "bool \<Rightarrow> 64 word \<times> num_error option \<Rightarrow> num_error + 64 word" where
  "range_check neg r =
     (if snd r \<noteq> None \<and> snd r \<noteq> Some ErrRange then Inl ErrSyntax
      else if \<not> neg \<and> fst r \<ge> int_cutoff then Inl ErrRange
      else if neg \<and> fst r > int_cutoff then Inl ErrRange
      else Inr (if neg then - fst r else fst r))"

subsection \<open>Header projection and forwarding annotation\<close>

text \<open>The flat list \<open>k1, v1, k2, v2, ...\<close> of a list of pairs, as the source collects it.\<close>

definition flatten :: "(string \<times> string) list \<Rightarrow> string list" where
  "flatten ps = concat (map (\<lambda>(k, v). [k, v]) ps)"

text \<open>
  The header projection in the words of the specification: one header with its
  values gives a pair for each value, in the order of the values, under the key
  \<open>authorization\<close> when the name is \<open>Authorization\<close>, under the name without its
  prefix when the name begins with \<open>Grpc-Metadata-\<close>, and nothing otherwise.
\<close>

definition project_header :: "string \<times> string list \<Rightarrow> (string \<times> string) list" where
  "project_header entry =
     (case entry of
        (name, vals) \<Rightarrow>
          if name = ''Authorization'' then map (\<lambda>v. (''authorization'', v)) vals
          else if take 14 name = ''Grpc-Metadata-'' then map (\<lambda>v. (drop 14 name, v)) vals
          else [])"

definition header_projection :: "header \<Rightarrow> (string \<times> string) list" where
  "header_projection h = concat (map project_header h)"

text \<open>
  The forwarding annotation in the words of the specification. A header value is
  present when \<open>Header_Get\<close> finds a non-empty first value.
\<close>

definition forwarded_host_annotation :: "Request \<Rightarrow> (string \<times> string) list" where
  "forwarded_host_annotation req =
     (if Header_Get (Header req) ''X-Forwarded-Host'' \<noteq> []
        then [(''x-forwarded-host'', Header_Get (Header req) ''X-Forwarded-Host'')]
      else if Host req \<noteq> [] then [(''x-forwarded-host'', Host req)]
      else [])"

definition forwarded_for_annotation :: "Request \<Rightarrow> (string \<times> string) list" where
  "forwarded_for_annotation req =
     (case SplitHostPort (RemoteAddr req) of
        Inl err \<Rightarrow> []
      | Inr (remoteIP, port) \<Rightarrow>
          if Header_Get (Header req) ''X-Forwarded-For'' \<noteq> []
            then [(''x-forwarded-for'',
                   Header_Get (Header req) ''X-Forwarded-For'' @ '', '' @ remoteIP)]
          else [(''x-forwarded-for'', remoteIP)])"

definition forwarding_annotation :: "Request \<Rightarrow> (string \<times> string) list" where
  "forwarding_annotation req = forwarded_host_annotation req @ forwarded_for_annotation req"

text \<open>The pairs of a metadata set built from a list of pairs: the keys lower-cased.\<close>

definition lower_keys :: "(string \<times> string) list \<Rightarrow> MD" where
  "lower_keys ps = map (\<lambda>(k, v). (ToLower k, v)) ps"

text \<open>The request without its \<open>Grpc-Timeout\<close> header.\<close>

definition without_timeout_header :: "Request \<Rightarrow> Request" where
  "without_timeout_header req =
     req\<lparr>Header := filter (\<lambda>(name, vals). name \<noteq> ''Grpc-Timeout'') (Header req)\<rparr>"

subsection \<open>Lineage of contexts\<close>

text \<open>
  \<open>derived_keeping base c\<close>: the context \<open>c\<close> is \<open>base\<close> or is derived from it by
  deadlines and by bindings of keys other than the server metadata key.
\<close>

fun derived_keeping :: "context \<Rightarrow> context \<Rightarrow> bool" where
  "derived_keeping base Background = (base = Background)"
| "derived_keeping base (WithValue parent k v) =
     (base = WithValue parent k v \<or> (k \<noteq> serverMetadataKey \<and> derived_keeping base parent))"
| "derived_keeping base (WithDeadline parent d) =
     (base = WithDeadline parent d \<or> derived_keeping base parent)"

text \<open>No binding of the server metadata key on the chain of the context.\<close>

fun never_attached :: "context \<Rightarrow> bool" where
  "never_attached Background = True"
| "never_attached (WithValue parent k v) = (k \<noteq> serverMetadataKey \<and> never_attached parent)"
| "never_attached (WithDeadline parent d) = never_attached parent"

text \<open>
  \<open>descendant base c\<close>: the context \<open>c\<close> is \<open>base\<close> or is derived from it in any
  number of steps, of any kind.
\<close>

fun descendant :: "context \<Rightarrow> context \<Rightarrow> bool" where
  "descendant base Background = (base = Background)"
| "descendant base (WithValue parent k v) =
     (base = WithValue parent k v \<or> descendant base parent)"
| "descendant base (WithDeadline parent d) =
     (base = WithDeadline parent d \<or> descendant base parent)"

section \<open>Properties of the timeout codec\<close>

subsection \<open>ParseUint and ParseInt\<close>

lemma digit_of_digit: "is_digit c \<Longrightarrow> digit_of c = Some (byte c - 48)"
  by (simp add: is_digit_def digit_of_def)

lemma digit_of_nondigit: "\<not> is_digit c \<Longrightarrow> digit_of c = Some d \<Longrightarrow> 10 \<le> d"
  by (auto simp: is_digit_def digit_of_def split: if_splits)

lemma foldl_dec_step_ge: "a \<le> foldl dec_step a ds"
proof (induction ds arbitrary: a)
  case Nil show ?case by simp
next
  case (Cons c cs)
  have "a \<le> dec_step a c" by (simp add: dec_step_def)
  also have "\<dots> \<le> foldl dec_step (dec_step a c) cs" by (rule Cons.IH)
  finally show ?case by simp
qed

lemma word_le_maxVal: "\<not> (w > maxVal)"
  by (simp add: maxVal_def)

lemma unat_times10:
  fixes n :: "64 word"
  assumes "n < uint_cutoff"
  shows "unat (n * 10) = unat n * 10"
proof -
  have "unat n < 1844674407370955162"
    using assms by (simp add: word_less_nat_alt uint_cutoff_def)
  then have "unat n * 10 < 2 ^ 64" by simp
  then show ?thesis by (simp add: unat_word_ariths)
qed

lemma step_overflow:
  fixes n :: "64 word"
  assumes "n < uint_cutoff" "d < 10"
  shows "(n * 10 + of_nat d < n * 10) \<longleftrightarrow> 2 ^ 64 \<le> unat n * 10 + d"
proof -
  have b: "unat n * 10 < 2 ^ 64"
    using assms(1) by (simp add: word_less_nat_alt uint_cutoff_def)
  have d: "unat (of_nat d :: 64 word) = d"
    using assms(2) by (simp add: unat_of_nat)
  have s: "unat (n * 10 + of_nat d) = (unat n * 10 + d) mod 2 ^ 64"
    using unat_times10[OF assms(1)] d by (simp add: unat_word_ariths)
  show ?thesis
  proof (cases "unat n * 10 + d < 2 ^ 64")
    case True
    then show ?thesis using s unat_times10[OF assms(1)] by (simp add: word_less_nat_alt)
  next
    case False
    then have "(unat n * 10 + d) mod 2 ^ 64 = unat n * 10 + d - 2 ^ 64"
      using b assms(2) by (simp add: mod_if)
    then show ?thesis using s unat_times10[OF assms(1)] False assms(2)
      by (simp add: word_less_nat_alt)
  qed
qed

lemma step_value:
  fixes n :: "64 word"
  assumes "n < uint_cutoff" "d < 10" "unat n * 10 + d < 2 ^ 64"
  shows "unat (n * 10 + of_nat d) = 10 * unat n + d"
proof -
  have d: "unat (of_nat d :: 64 word) = d"
    using assms(2) by (simp add: unat_of_nat)
  show ?thesis using unat_times10[OF assms(1)] d assms(3) by (simp add: unat_word_ariths)
qed

lemma cutoff_overflow:
  fixes n :: "64 word"
  assumes "\<not> n < uint_cutoff"
  shows "2 ^ 64 \<le> 10 * unat n"
  using assms by (simp add: word_less_nat_alt uint_cutoff_def)

lemma ParseUint_loop_digits:
  "list_all is_digit ds \<Longrightarrow>
   ParseUint_loop ds n =
     (if foldl dec_step (unat n) ds < 2 ^ 64
      then (of_nat (foldl dec_step (unat n) ds), None)
      else (maxVal, Some ErrRange))"
proof (induction ds arbitrary: n)
  case Nil
  have "unat n < 2 ^ 64" using unsigned_less[of n] by simp
  then show ?case by simp
next
  case (Cons c cs)
  let ?d = "byte c - 48"
  from Cons.prems have dg: "is_digit c" and rest: "list_all is_digit cs" by simp_all
  have d10: "?d < 10" using dg by (auto simp: is_digit_def)
  have dof: "digit_of c = Some ?d" by (rule digit_of_digit[OF dg])
  show ?case
  proof (cases "n < uint_cutoff")
    case False
    have "2 ^ 64 \<le> dec_step (unat n) c"
      using cutoff_overflow[OF False] by (simp add: dec_step_def)
    also have "\<dots> \<le> foldl dec_step (dec_step (unat n) c) cs" by (rule foldl_dec_step_ge)
    finally have "\<not> foldl dec_step (unat n) (c # cs) < 2 ^ 64" by simp
    then show ?thesis using False dof d10 by (simp add: not_less)
  next
    case True
    show ?thesis
    proof (cases "unat n * 10 + ?d < 2 ^ 64")
      case False
      then have "2 ^ 64 \<le> dec_step (unat n) c" by (simp add: dec_step_def mult.commute)
      also have "\<dots> \<le> foldl dec_step (dec_step (unat n) c) cs" by (rule foldl_dec_step_ge)
      finally have big: "\<not> foldl dec_step (unat n) (c # cs) < 2 ^ 64" by simp
      have "n * 10 + of_nat ?d < n * 10"
        using step_overflow[OF True d10] False by simp
      then show ?thesis using True dof d10 big by (simp add: not_le Let_def)
    next
      case fit: True
      have nov: "\<not> (n * 10 + of_nat ?d < n * 10)"
        using step_overflow[OF True d10] fit by simp
      have val: "unat (n * 10 + of_nat ?d) = dec_step (unat n) c"
        using step_value[OF True d10 fit] by (simp add: dec_step_def)
      have nle: "\<not> uint_cutoff \<le> n" using True by simp
      show ?thesis
        using nle dof d10 nov word_le_maxVal Cons.IH[OF rest, of "n * 10 + of_nat ?d"] val
        by (simp add: Let_def)
    qed
  qed
qed

lemma ParseUint_loop_nondigit:
  "\<not> list_all is_digit ds \<Longrightarrow> snd (ParseUint_loop ds n) \<noteq> None"
proof (induction ds arbitrary: n)
  case Nil then show ?case by simp
next
  case (Cons c cs)
  show ?case
  proof (cases "is_digit c")
    case False
    then show ?thesis using digit_of_nondigit[OF False]
      by (auto split: option.splits)
  next
    case True
    with Cons.prems have "\<not> list_all is_digit cs" by simp
    from Cons.IH[OF this] show ?thesis
      by (auto simp: Let_def split: option.splits)
  qed
qed

lemma ParseUint_digits:
  assumes "ds \<noteq> []" "list_all is_digit ds"
  shows "ParseUint ds =
     (if dec_val ds < 2 ^ 64 then (of_nat (dec_val ds), None) else (maxVal, Some ErrRange))"
  using assms ParseUint_loop_digits[OF assms(2), of 0]
  by (simp add: ParseUint_def dec_val_def)

lemma ParseUint_bad:
  assumes "ds = [] \<or> \<not> list_all is_digit ds"
  shows "snd (ParseUint ds) \<noteq> None"
  using assms ParseUint_loop_nondigit[of ds 0] by (auto simp: ParseUint_def)

lemma ParseUint_loop_range: "snd (ParseUint_loop ds n) = Some ErrRange \<Longrightarrow> fst (ParseUint_loop ds n) = maxVal"
  by (induction ds arbitrary: n) (auto simp: Let_def split: option.splits if_splits)

lemma ParseUint_range: "snd (ParseUint ds) = Some ErrRange \<Longrightarrow> fst (ParseUint ds) = maxVal"
  using ParseUint_loop_range[of ds 0] by (auto simp: ParseUint_def split: if_splits)

lemma ParseInt_unfold:
  "s \<noteq> [] \<Longrightarrow> ParseInt s = range_check (hd s = CHR ''-'') (ParseUint (unsigned_part s))"
  by (cases s) (auto simp: ParseInt_def range_check_def unsigned_part_def Let_def split: prod.splits)

lemma range_check_err:
  assumes "snd r \<noteq> None" "snd r = Some ErrRange \<Longrightarrow> fst r = maxVal"
  shows "isl (range_check neg r)"
  using assms by (cases "snd r = Some ErrRange") (auto simp: range_check_def maxVal_def int_cutoff_def)

lemma ParseInt_not_literal:
  assumes "int_literal s = None"
  shows "isl (ParseInt s)"
proof (cases s)
  case Nil then show ?thesis by (simp add: ParseInt_def)
next
  case (Cons c cs)
  have "unsigned_part s = [] \<or> \<not> list_all is_digit (unsigned_part s)"
    using assms Cons by (auto simp: int_literal_def unsigned_part_def split: if_splits)
  then have "snd (ParseUint (unsigned_part s)) \<noteq> None" by (rule ParseUint_bad)
  then have "isl (range_check (hd s = CHR ''-'') (ParseUint (unsigned_part s)))"
    using ParseUint_range by (rule range_check_err)
  then show ?thesis using Cons ParseInt_unfold[of s] by simp
qed

lemma of_nat_ge_cutoff:
  assumes "v < 2 ^ 64"
  shows "(int_cutoff \<le> (of_nat v :: 64 word)) \<longleftrightarrow> 2 ^ 63 \<le> v"
    and "(int_cutoff < (of_nat v :: 64 word)) \<longleftrightarrow> 2 ^ 63 < v"
  using assms by (simp_all add: int_cutoff_def word_le_nat_alt word_less_nat_alt unat_of_nat)

lemma range_check_ok:
  assumes "v < 2 ^ 64"
  shows "range_check neg (of_nat v, None) =
     (if neg then (if v \<le> 2 ^ 63 then Inr (word_of_int (- int v)) else Inl ErrRange)
      else (if v < 2 ^ 63 then Inr (word_of_int (int v)) else Inl ErrRange))"
  using of_nat_ge_cutoff[OF assms] by (auto simp: range_check_def)

lemma ParseInt_literal:
  assumes "int_literal s = Some i"
  shows "ParseInt s = (if - (2 ^ 63) \<le> i \<and> i < 2 ^ 63 then Inr (word_of_int i) else Inl ErrRange)"
proof (cases s)
  case Nil with assms show ?thesis by (simp add: int_literal_def)
next
  case (Cons c cs)
  let ?neg = "hd s = CHR ''-''"
  let ?s' = "unsigned_part s"
  have ne: "?s' \<noteq> []" and dg: "list_all is_digit ?s'"
    using assms Cons by (auto simp: int_literal_def unsigned_part_def split: if_splits)
  have i: "i = (if ?neg then - int (dec_val ?s') else int (dec_val ?s'))"
    using assms Cons by (auto simp: int_literal_def unsigned_part_def split: if_splits)
  have unf: "ParseInt s = range_check ?neg (ParseUint ?s')"
    using Cons ParseInt_unfold[of s] by simp
  note pu = ParseUint_digits[OF ne dg]
  show ?thesis
  proof (cases "dec_val ?s' < 2 ^ 64")
    case False
    then have "ParseUint ?s' = (maxVal, Some ErrRange)" using pu by simp
    then have "ParseInt s = Inl ErrRange"
      using unf by (simp add: range_check_def maxVal_def int_cutoff_def)
    moreover have "\<not> (- (2 ^ 63) \<le> i \<and> i < 2 ^ 63)" using False i by (auto split: if_splits)
    ultimately show ?thesis by simp
  next
    case True
    then have "ParseUint ?s' = (of_nat (dec_val ?s'), None)" using pu by simp
    then have "ParseInt s = range_check ?neg (of_nat (dec_val ?s'), None)" using unf by simp
    then show ?thesis using range_check_ok[OF True, of ?neg] i by (auto split: if_splits)
  qed
qed

lemma timeoutUnitToDuration_unit:
  "timeoutUnitToDuration u = (word_of_int (unit_nanoseconds u), is_unit u)"
  by (simp add: timeoutUnitToDuration_def unit_nanoseconds_def is_unit_def
      Hour_def Minute_def Second_def Millisecond_def Microsecond_def Nanosecond_def)

lemma timeoutDecode_unfold:
  "2 \<le> length s \<Longrightarrow> timeoutDecode s =
     (if \<not> is_unit (last s) then Inl (UnitNotRecognized s)
      else (case ParseInt (butlast s) of
              Inl err \<Rightarrow> Inl (NumError err)
            | Inr t \<Rightarrow> Inr (word_of_int (unit_nanoseconds (last s)) * t)))"
proof -
  assume len: "2 \<le> length s"
  then have ne: "s \<noteq> []" by auto
  have l: "s ! (length s - 1) = last s" using ne by (simp add: last_conv_nth)
  have b: "take (length s - 1) s = butlast s" by (simp add: butlast_conv_take)
  have "\<not> length s < 2" using len by simp
  then show ?thesis
    unfolding timeoutDecode_def Let_def l b timeoutUnitToDuration_unit by simp
qed

lemma int_literal_digits:
  assumes "ds \<noteq> []" "list_all is_digit ds"
  shows "int_literal ds = Some (int (dec_val ds))"
proof (cases ds)
  case Nil with assms show ?thesis by simp
next
  case (Cons c cs)
  with assms(2) have "is_digit c" by simp
  then have "c \<noteq> CHR ''+''" "c \<noteq> CHR ''-''" by (auto simp: is_digit_def byte_def)
  then show ?thesis using Cons assms(2) by (simp add: int_literal_def)
qed

lemma sint_word_of_int_64:
  "- (2 ^ 63) \<le> k \<Longrightarrow> k < 2 ^ 63 \<Longrightarrow> sint (word_of_int k :: 64 word) = k"
  by (simp add: sint_sbintrunc' signed_take_bit_int_eq_self)

subsection \<open>Decoding a timeout token\<close>

text \<open>
  C1 (as amended). For a token of at least one decimal digit followed by one of the
  unit characters H, M, S, m, u, n, whose digits denote a number below \<open>2 ^ 63\<close>,
  \<open>timeoutDecode\<close> succeeds, and its result is the product of the unit's nanoseconds
  and the number in wrapping 64-bit arithmetic: the product itself whenever that is
  below \<open>2 ^ 63\<close>.
\<close>

theorem timeoutDecode_valid_token:
  assumes "ds \<noteq> []" and "list_all is_digit ds" and "dec_val ds < 2 ^ 63" and "is_unit u"
  shows "\<exists>r. timeoutDecode (ds @ [u]) = Inr r \<and>
             r = word_of_int (unit_nanoseconds u * int (dec_val ds)) \<and>
             (unit_nanoseconds u * int (dec_val ds) < 2 ^ 63 \<longrightarrow>
                sint r = unit_nanoseconds u * int (dec_val ds))"
proof -
  let ?p = "unit_nanoseconds u * int (dec_val ds)"
  have len: "2 \<le> length (ds @ [u])" using assms(1) by (cases ds) simp_all
  have "ParseInt ds = Inr (word_of_int (int (dec_val ds)))"
    using ParseInt_literal[OF int_literal_digits[OF assms(1,2)]] assms(3) by simp
  then have dec: "timeoutDecode (ds @ [u]) = Inr (word_of_int ?p)"
    using timeoutDecode_unfold[OF len] assms(4) by simp
  have nonneg: "0 \<le> ?p" by (simp add: unit_nanoseconds_def)
  have "sint (word_of_int ?p :: 64 word) = ?p" if "?p < 2 ^ 63"
    using nonneg that by (intro sint_word_of_int_64) simp_all
  then show ?thesis using dec by simp
qed

theorem timeoutDecode_valid_token_witness:
  "timeoutDecode ''500m'' = Inr 500000000 \<and> sint (500000000 :: 64 word) = 500000000"
  using timeoutDecode_valid_token [of "''500''" "CHR ''m''"]
  by (simp add: is_digit_def byte_def dec_val_def dec_step_def is_unit_def unit_nanoseconds_def)

text \<open>
  The product over the integers, as the specification states it, is not what
  the token \<open>2562048H\<close> decodes to: 2562048 hours are 9223372800000000000
  nanoseconds, and the duration returned is negative.
\<close>

theorem timeoutDecode_product_counterexample:
  "list_all is_digit ''2562048'' \<and> dec_val ''2562048'' < 2 ^ 63 \<and> is_unit CHR ''H'' \<and>
   timeoutDecode ''2562048H'' = Inr (- 9223371273709551616) \<and>
   sint (- 9223371273709551616 :: 64 word) = - 9223371273709551616 \<and>
   unit_nanoseconds CHR ''H'' * int (dec_val ''2562048'') = 9223372800000000000"
  by (simp add: timeoutDecode_def timeoutUnitToDuration_def ParseInt_def ParseUint_def
      digit_of_def byte_def lower_def uint_cutoff_def maxVal_def int_cutoff_def Let_def
      Hour_def Minute_def Second_def Millisecond_def Microsecond_def Nanosecond_def
      is_digit_def dec_val_def dec_step_def is_unit_def unit_nanoseconds_def)

text \<open>
  C2 (as amended). \<open>timeoutDecode\<close> fails exactly when the token is shorter than 2,
  or its final character is none of the six unit characters, or the prefix before
  the final character is no base-10 integer literal, with an optional \<open>+\<close> or \<open>-\<close>
  sign, of the signed 64-bit range; on every other token it succeeds.
\<close>

theorem timeoutDecode_fails_iff:
  "isl (timeoutDecode s) \<longleftrightarrow> decode_failure s"
proof (cases "length s < 2")
  case True
  then show ?thesis by (simp add: timeoutDecode_def decode_failure_def)
next
  case False
  then have len: "2 \<le> length s" by simp
  show ?thesis
  proof (cases "int_literal (butlast s)")
    case None
    then show ?thesis
      using timeoutDecode_unfold[OF len] ParseInt_not_literal[OF None]
      by (auto simp: decode_failure_def split: sum.splits)
  next
    case (Some i)
    then show ?thesis
      using timeoutDecode_unfold[OF len] ParseInt_literal[OF Some] len
      by (auto simp: decode_failure_def split: sum.splits)
  qed
qed

theorem timeoutDecode_fails_iff_witness:
  "isl (timeoutDecode ''5X'') \<and> isl (timeoutDecode ''abcS'') \<and> \<not> isl (timeoutDecode ''10n'')"
  using timeoutDecode_fails_iff [of "''5X''"] timeoutDecode_fails_iff [of "''abcS''"]
    timeoutDecode_fails_iff [of "''10n''"]
  by (simp add: decode_failure_def int_literal_def is_digit_def byte_def dec_val_def
      dec_step_def is_unit_def)

text \<open>
  The failure condition as the specification states it holds of the token
  \<open>-5S\<close>, whose prefix is no non-negative integer, and the token decodes to minus
  five seconds.
\<close>

theorem timeoutDecode_negative_counterexample:
  "claimed_decode_failure ''-5S'' \<and> timeoutDecode ''-5S'' = Inr (- 5000000000)"
  by (simp add: timeoutDecode_def timeoutUnitToDuration_def ParseInt_def ParseUint_def
      digit_of_def byte_def lower_def uint_cutoff_def maxVal_def int_cutoff_def Let_def
      Second_def Millisecond_def Microsecond_def Nanosecond_def
      claimed_decode_failure_def nonneg_literal_def is_digit_def is_unit_def)

section \<open>Properties of the annotation\<close>

subsection \<open>The collected pairs\<close>

lemma ToLower_xForwardedHost: "ToLower ''X-Forwarded-Host'' = ''x-forwarded-host''"
  by code_simp

lemma ToLower_xForwardedFor: "ToLower ''X-Forwarded-For'' = ''x-forwarded-for''"
  by code_simp

lemma SplitHostPort_empty: "SplitHostPort [] = Inl ''missing port in address''"
  by (simp add: SplitHostPort_def)

lemma SplitHostPort_example: "SplitHostPort ''10.0.0.5:4321'' = Inr (''10.0.0.5'', ''4321'')"
  by (simp add: SplitHostPort_def SplitHostPort_tail_def)


lemma flatten_append: "flatten (ps @ qs) = flatten ps @ flatten qs"
  by (simp add: flatten_def)

lemma flatten_Nil_iff: "flatten ps = [] \<longleftrightarrow> ps = []"
  by (cases ps) (auto simp: flatten_def)

lemma length_MetadataHeaderPrefix: "length MetadataHeaderPrefix = 14"
  by (simp add: MetadataHeaderPrefix_def)

lemma HasPrefix_MetadataHeaderPrefix:
  "HasPrefix key MetadataHeaderPrefix \<longleftrightarrow> take 14 key = ''Grpc-Metadata-''"
proof -
  have "14 \<le> length key" if "take 14 key = ''Grpc-Metadata-''"
  proof -
    have "length (take 14 key) = 14" using that by simp
    then show ?thesis by simp
  qed
  then show ?thesis
    unfolding HasPrefix_def length_MetadataHeaderPrefix
    by (auto simp: MetadataHeaderPrefix_def)
qed

lemma vals_loop_project:
  "vals_loop key vals pairs = pairs @ flatten (project_header (key, vals))"
proof (induction vals arbitrary: pairs)
  case Nil
  show ?case by (simp add: project_header_def flatten_def)
next
  case (Cons val vals)
  consider (auth) "key = ''Authorization''"
    | (meta) "key \<noteq> ''Authorization''" "take 14 key = ''Grpc-Metadata-''"
    | (other) "key \<noteq> ''Authorization''" "take 14 key \<noteq> ''Grpc-Metadata-''"
    by blast
  then show ?case
  proof cases
    case auth
    have "vals_loop key (val # vals) pairs = vals_loop key vals (pairs @ [''authorization'', val])"
      using auth by simp
    also have "\<dots> = (pairs @ [''authorization'', val]) @ flatten (project_header (key, vals))"
      by (rule Cons.IH)
    finally show ?thesis using auth by (simp add: project_header_def flatten_def)
  next
    case meta
    have "vals_loop key (val # vals) pairs = vals_loop key vals (pairs @ [drop 14 key, val])"
      using meta HasPrefix_MetadataHeaderPrefix[of key] length_MetadataHeaderPrefix
      by (simp del: One_nat_def)
    also have "\<dots> = (pairs @ [drop 14 key, val]) @ flatten (project_header (key, vals))"
      by (rule Cons.IH)
    finally show ?thesis using meta by (simp add: project_header_def flatten_def)
  next
    case other
    have "vals_loop key (val # vals) pairs = vals_loop key vals pairs"
      using other HasPrefix_MetadataHeaderPrefix[of key] by simp
    also have "\<dots> = pairs @ flatten (project_header (key, vals))"
      by (rule Cons.IH)
    finally show ?thesis using other by (simp add: project_header_def flatten_def)
  qed
qed

lemma header_loop_projection:
  "header_loop h pairs = pairs @ flatten (header_projection h)"
proof (induction h arbitrary: pairs)
  case Nil
  show ?case by (simp add: header_projection_def flatten_def)
next
  case (Cons entry rest)
  obtain key vals where e: "entry = (key, vals)" by (cases entry)
  have "header_projection (entry # rest) = project_header entry @ header_projection rest"
    by (simp add: header_projection_def)
  then show ?case
    using Cons.IH e by (simp add: vals_loop_project flatten_append)
qed

lemma forwarded_host_eq:
  "forwarded_host req pairs = pairs @ flatten (forwarded_host_annotation req)"
  by (simp add: forwarded_host_def forwarded_host_annotation_def Let_def flatten_def
      ToLower_xForwardedHost xForwardedHost_def)

lemma forwarded_for_eq:
  "fst (forwarded_for req pairs) = pairs @ flatten (forwarded_for_annotation req)"
proof (cases "RemoteAddr req = []")
  case True
  then show ?thesis
    by (simp add: forwarded_for_def forwarded_for_annotation_def flatten_def SplitHostPort_empty)
next
  case False
  then show ?thesis
    by (auto simp: forwarded_for_def forwarded_for_annotation_def Let_def flatten_def
        ToLower_xForwardedFor xForwardedFor_def split: sum.splits)
qed

lemma collect_pairs_flatten:
  "fst (collect_pairs req) =
     flatten (header_projection (Header req) @ forwarding_annotation req)"
  by (simp add: collect_pairs_def forwarded_for_eq forwarded_host_eq
      header_loop_projection forwarding_annotation_def flatten_append)

lemma Pairs_flatten: "Pairs (flatten ps) = Some (lower_keys ps)"
  by (induction ps) (auto simp: flatten_def lower_keys_def)

subsection \<open>The returned context\<close>

lemma AnnotateContext_ok:
  assumes "effective_timeout d req = Inr t"
    and "ps = header_projection (Header req) @ forwarding_annotation req"
    and "ctx' = (if t \<noteq> 0 then WithTimeout now ctx t else ctx)"
  shows "fst (AnnotateContext d now ctx req) =
     Returned (Some (if ps = [] then ctx' else NewContext ctx' (lower_keys ps))) None"
proof -
  obtain pairs logged where cp: "collect_pairs req = (pairs, logged)" by (cases "collect_pairs req")
  then have p: "pairs = flatten ps" using collect_pairs_flatten[of req] assms(2) by simp
  show ?thesis
  proof (cases "ps = []")
    case True
    then have "pairs = []" using p by (simp add: flatten_def)
    then show ?thesis using assms(1,3) cp True by (simp add: AnnotateContext_def Let_def)
  next
    case False
    then have "pairs \<noteq> []" using p flatten_Nil_iff by simp
    moreover have "Pairs pairs = Some (lower_keys ps)" using p Pairs_flatten by simp
    ultimately show ?thesis using assms(1,3) cp False by (simp add: AnnotateContext_def Let_def)
  qed
qed

lemma Deadline_NewContext: "Deadline (NewContext c md) = Deadline c"
  by (simp add: NewContext_def)

lemma FromContext_NewContext: "FromContext (NewContext c md) = Some md"
  by (simp add: NewContext_def FromContext_def)

lemma FromContext_WithTimeout: "FromContext (WithTimeout now c t) = FromContext c"
  by (simp add: WithTimeout_def FromContext_def)

lemma Deadline_result:
  assumes "ctx' = (if t \<noteq> 0 then WithTimeout now ctx t else ctx)"
  shows "Deadline (if ps = [] then ctx' else NewContext ctx' (lower_keys ps)) =
           (if t \<noteq> 0 then Some (now + sint t) else Deadline ctx)"
  using assms by (simp add: Deadline_NewContext WithTimeout_def)

lemma effective_timeout_cases:
  assumes "tm = Header_Get (Header req) metadataGrpcTimeout"
    and "(tm = [] \<and> t = d) \<or> (tm \<noteq> [] \<and> timeoutDecode tm = Inr t)"
  shows "effective_timeout d req = Inr t"
  using assms by (auto simp: effective_timeout_def Let_def)

lemma uint_cutoff_not_le_1: "\<not> (1844674407370955162 :: 64 word) \<le> 1"
  by (simp add: word_le_nat_alt)

lemma decode_100m: "timeoutDecode ''100m'' = Inr 100000000"
  by (simp add: timeoutDecode_def timeoutUnitToDuration_def ParseInt_def ParseUint_def
      digit_of_def byte_def lower_def uint_cutoff_def maxVal_def int_cutoff_def Let_def
      Millisecond_def Microsecond_def Nanosecond_def uint_cutoff_not_le_1)

lemma decode_0S: "timeoutDecode ''0S'' = Inr 0"
  by (simp add: timeoutDecode_def timeoutUnitToDuration_def ParseInt_def ParseUint_def
      digit_of_def byte_def lower_def uint_cutoff_def maxVal_def int_cutoff_def Let_def
      Second_def Millisecond_def Microsecond_def Nanosecond_def)

subsection \<open>The request without its timeout header\<close>

lemma map_of_without:
  "map_of (filter (\<lambda>(name, vals). name \<noteq> a) h) k = (if k = a then None else map_of h k)"
  by (induction h) auto

lemma Header_Get_without:
  "Header_Get (Header (without_timeout_header req)) k =
     (if k = ''Grpc-Timeout'' then [] else Header_Get (Header req) k)"
  by (simp add: without_timeout_header_def Header_Get_def map_of_without)

lemma header_loop_without:
  "header_loop (Header (without_timeout_header req)) pairs = header_loop (Header req) pairs"
proof -
  have "header_projection (filter (\<lambda>(name, vals). name \<noteq> ''Grpc-Timeout'') h) =
        header_projection h" for h
    by (induction h) (auto simp: header_projection_def project_header_def)
  then show ?thesis by (simp add: header_loop_projection without_timeout_header_def)
qed

lemma Host_without: "Host (without_timeout_header req) = Host req"
  by (simp add: without_timeout_header_def)

lemma RemoteAddr_without: "RemoteAddr (without_timeout_header req) = RemoteAddr req"
  by (simp add: without_timeout_header_def)

lemma collect_pairs_without:
  "collect_pairs (without_timeout_header req) = collect_pairs req"
proof -
  have gh: "Header_Get (Header (without_timeout_header req)) xForwardedHost =
            Header_Get (Header req) xForwardedHost"
    by (simp add: Header_Get_without xForwardedHost_def)
  have gf: "Header_Get (Header (without_timeout_header req)) xForwardedFor =
            Header_Get (Header req) xForwardedFor"
    by (simp add: Header_Get_without xForwardedFor_def)
  have h: "forwarded_host (without_timeout_header req) pairs = forwarded_host req pairs" for pairs
    unfolding forwarded_host_def gh Host_without by (rule refl)
  have f: "forwarded_for (without_timeout_header req) pairs = forwarded_for req pairs" for pairs
    unfolding forwarded_for_def gf RemoteAddr_without by (rule refl)
  show ?thesis by (simp add: collect_pairs_def h f header_loop_without)
qed

lemma effective_timeout_without:
  "effective_timeout d (without_timeout_header req) = Inr d"
  by (simp add: effective_timeout_def Header_Get_without metadataGrpcTimeout_def)

subsection \<open>Lookups along the chain of a context\<close>

lemma Value_derived_keeping:
  "derived_keeping base c \<Longrightarrow> Value c serverMetadataKey = Value base serverMetadataKey"
  by (induction c) auto

lemma Value_never_attached: "never_attached c \<Longrightarrow> Value c serverMetadataKey = None"
  by (induction c) auto

section \<open>The claims about the annotation\<close>

text \<open>
  C3. When the first \<open>Grpc-Timeout\<close> value of the request is non-empty and
  \<open>timeoutDecode\<close> rejects it, \<open>AnnotateContext\<close> returns no context (\<open>nil\<close>)
  together with an error of code \<open>InvalidArgument\<close> whose message carries the
  token; nothing is logged.
\<close>

theorem AnnotateContext_invalid_timeout:
  assumes "Header_Get (Header req) metadataGrpcTimeout = tm" and "tm \<noteq> []"
    and "timeoutDecode tm = Inl e"
  shows "AnnotateContext d now ctx req =
     (Returned None (Some (RpcError InvalidArgument (''invalid grpc-timeout: '' @ tm))), [])"
  using assms by (simp add: AnnotateContext_def effective_timeout_def)

theorem AnnotateContext_invalid_timeout_witness:
  "AnnotateContext 0 1000 Background
     \<lparr>Header = [(''Grpc-Timeout'', [''bogus''])], Host = ''example.com'',
      RemoteAddr = ''10.0.0.5:4321''\<rparr> =
   (Returned None (Some (RpcError InvalidArgument ''invalid grpc-timeout: bogus'')), [])"
  using AnnotateContext_invalid_timeout
    [of "\<lparr>Header = [(''Grpc-Timeout'', [''bogus''])], Host = ''example.com'',
          RemoteAddr = ''10.0.0.5:4321''\<rparr>" "''bogus''" "UnitNotRecognized ''bogus''"
        0 1000 Background]
  by (simp add: Header_Get_def metadataGrpcTimeout_def timeoutDecode_def
      timeoutUnitToDuration_def)

text \<open>
  C4. The loop over the header emits exactly the header projection: for each header
  in turn and for each of its values in order, the pair (\<open>authorization\<close>, value)
  when the name is \<open>Authorization\<close>, the pair (name without the prefix, value) when
  the name begins with \<open>Grpc-Metadata-\<close>, and nothing for any other header.
\<close>

theorem header_loop_emits_projection:
  "header_loop h [] = flatten (header_projection h)"
  using header_loop_projection [of h "[]"] by simp

theorem header_loop_emits_projection_witness:
  "header_loop [(''Grpc-Metadata-Foo'', [''bar'', ''baz'']), (''Authorization'', [''Bearer xyz'']),
                (''Accept'', [''text/plain''])] [] =
   [''Foo'', ''bar'', ''Foo'', ''baz'', ''authorization'', ''Bearer xyz'']"
  using header_loop_emits_projection
    [of "[(''Grpc-Metadata-Foo'', [''bar'', ''baz'']), (''Authorization'', [''Bearer xyz'']),
          (''Accept'', [''text/plain''])]"]
  by (simp add: header_projection_def project_header_def flatten_def)



text \<open>
  C6. When \<open>AnnotateContext\<close> attaches a metadata set, the set read from the
  returned context is the header projection followed by the forwarding annotation,
  each in its order of collection and with its duplicates, the keys lower-cased.
\<close>

theorem metadata_order:
  assumes "effective_timeout d req = Inr t"
    and "header_projection (Header req) @ forwarding_annotation req \<noteq> []"
  shows "\<exists>c. fst (AnnotateContext d now ctx req) = Returned (Some c) None \<and>
             FromContext c =
               Some (lower_keys (header_projection (Header req)) @
                     lower_keys (forwarding_annotation req))"
proof -
  define ps where "ps = header_projection (Header req) @ forwarding_annotation req"
  define c where "c = NewContext (if t \<noteq> 0 then WithTimeout now ctx t else ctx) (lower_keys ps)"
  have "ps \<noteq> []" unfolding ps_def by (rule assms(2))
  then have "fst (AnnotateContext d now ctx req) = Returned (Some c) None"
    using AnnotateContext_ok[OF assms(1) ps_def refl, of now ctx] by (simp add: c_def)
  moreover have "FromContext c =
      Some (lower_keys (header_projection (Header req)) @ lower_keys (forwarding_annotation req))"
    by (simp add: c_def FromContext_NewContext lower_keys_def ps_def)
  ultimately show ?thesis by blast
qed

theorem metadata_order_witness:
  "\<exists>c. fst (AnnotateContext 0 1000 Background
         \<lparr>Header = [(''Grpc-Metadata-Foo'', [''bar'', ''baz'']),
                     (''Authorization'', [''Bearer xyz''])],
          Host = ''example.com'', RemoteAddr = ''10.0.0.5:4321''\<rparr>) = Returned (Some c) None \<and>
       FromContext c =
         Some [(''foo'', ''bar''), (''foo'', ''baz''), (''authorization'', ''Bearer xyz''),
               (''x-forwarded-host'', ''example.com''), (''x-forwarded-for'', ''10.0.0.5'')]"
proof -
  let ?r = "\<lparr>Header = [(''Grpc-Metadata-Foo'', [''bar'', ''baz'']),
                        (''Authorization'', [''Bearer xyz''])],
             Host = ''example.com'', RemoteAddr = ''10.0.0.5:4321''\<rparr>"
  have e: "effective_timeout 0 ?r = Inr 0"
    by (simp add: effective_timeout_def Header_Get_def metadataGrpcTimeout_def)
  have hp: "header_projection (Header ?r) =
      [(''Foo'', ''bar''), (''Foo'', ''baz''), (''authorization'', ''Bearer xyz'')]"
    by (simp add: header_projection_def project_header_def)
  have fa: "forwarding_annotation ?r =
      [(''x-forwarded-host'', ''example.com''), (''x-forwarded-for'', ''10.0.0.5'')]"
    by (simp add: forwarding_annotation_def forwarded_host_annotation_def
        forwarded_for_annotation_def Header_Get_def SplitHostPort_example)
  have ne: "header_projection (Header ?r) @ forwarding_annotation ?r \<noteq> []"
    by (simp only: hp) simp
  have lk: "lower_keys (header_projection (Header ?r)) @ lower_keys (forwarding_annotation ?r) =
      [(''foo'', ''bar''), (''foo'', ''baz''), (''authorization'', ''Bearer xyz''),
       (''x-forwarded-host'', ''example.com''), (''x-forwarded-for'', ''10.0.0.5'')]"
    unfolding hp fa by code_simp
  show ?thesis
    using metadata_order [OF e ne, of 1000 Background] unfolding lk .
qed

text \<open>
  C7. Let the effective timeout be the decoded \<open>Grpc-Timeout\<close> value when that
  value is non-empty, and the default otherwise. The context that \<open>AnnotateContext\<close>
  returns has the deadline \<open>now\<close> plus the timeout when the timeout is not zero,
  and the deadline of the context it was given when the timeout is zero.
\<close>

theorem AnnotateContext_deadline:
  assumes "tm = Header_Get (Header req) metadataGrpcTimeout"
    and "(tm = [] \<and> t = d) \<or> (tm \<noteq> [] \<and> timeoutDecode tm = Inr t)"
  shows "\<exists>c. fst (AnnotateContext d now ctx req) = Returned (Some c) None \<and>
             Deadline c = (if t \<noteq> 0 then Some (now + sint t) else Deadline ctx)"
  using AnnotateContext_ok[OF effective_timeout_cases[OF assms] refl refl, of now ctx]
    Deadline_result[OF refl]
  by blast

theorem AnnotateContext_deadline_witness:
  "(\<exists>c. fst (AnnotateContext 0 1000 Background
            \<lparr>Header = [(''Grpc-Timeout'', [''100m''])], Host = [], RemoteAddr = []\<rparr>) =
          Returned (Some c) None \<and> Deadline c = Some 100001000) \<and>
   (\<exists>c. fst (AnnotateContext 0 1000 (WithDeadline Background 5)
            \<lparr>Header = [], Host = [], RemoteAddr = []\<rparr>) =
          Returned (Some c) None \<and> Deadline c = Some 5)"
proof -
  let ?r1 = "\<lparr>Header = [(''Grpc-Timeout'', [''100m''])], Host = [], RemoteAddr = []\<rparr>"
  let ?r2 = "\<lparr>Header = [], Host = [], RemoteAddr = []\<rparr>"
  have g1: "Header_Get (Header ?r1) metadataGrpcTimeout = ''100m''"
    by (simp add: Header_Get_def metadataGrpcTimeout_def)
  have h1: "(''100m'' = [] \<and> (100000000 :: duration) = 0) \<or>
            (''100m'' \<noteq> [] \<and> timeoutDecode ''100m'' = Inr 100000000)"
    by (simp add: decode_100m)
  have g2: "Header_Get (Header ?r2) metadataGrpcTimeout = []"
    by (simp add: Header_Get_def)
  have h2: "([] = ([] :: string) \<and> (0 :: duration) = 0) \<or>
            (([] :: string) \<noteq> [] \<and> timeoutDecode [] = Inr 0)"
    by simp
  show ?thesis
    using AnnotateContext_deadline [OF g1 [symmetric] h1, of 1000 Background]
      AnnotateContext_deadline [OF g2 [symmetric] h2, of 1000 "WithDeadline Background 5"]
    by simp
qed

text \<open>
  C8 (as amended). When \<open>AnnotateContext\<close> succeeds with an empty list of collected
  pairs, it returns the context of the deadline step itself and attaches nothing:
  reading the metadata of the returned context gives exactly what the context it was
  given carries, which is absent when that carries none. With a non-empty list it
  returns that context with a metadata set attached, the set is not empty, and
  reading gives that set.
\<close>

theorem metadata_attached_iff_pairs:
  assumes "effective_timeout d req = Inr t"
    and "ctx' = (if t \<noteq> 0 then WithTimeout now ctx t else ctx)"
  shows "(fst (collect_pairs req) = [] \<longrightarrow>
            fst (AnnotateContext d now ctx req) = Returned (Some ctx') None \<and>
            FromContext ctx' = FromContext ctx) \<and>
         (fst (collect_pairs req) \<noteq> [] \<longrightarrow>
            (\<exists>md. md \<noteq> [] \<and>
               fst (AnnotateContext d now ctx req) = Returned (Some (NewContext ctx' md)) None \<and>
               FromContext (NewContext ctx' md) = Some md))"
proof -
  define ps where "ps = header_projection (Header req) @ forwarding_annotation req"
  have e: "fst (collect_pairs req) = [] \<longleftrightarrow> ps = []"
    using collect_pairs_flatten[of req] flatten_Nil_iff[of ps] by (simp add: ps_def)
  have r: "fst (AnnotateContext d now ctx req) =
      Returned (Some (if ps = [] then ctx' else NewContext ctx' (lower_keys ps))) None"
    by (rule AnnotateContext_ok[OF assms(1) ps_def assms(2)])
  have f: "FromContext ctx' = FromContext ctx"
    using assms(2) by (simp add: FromContext_WithTimeout)
  have n: "lower_keys ps \<noteq> []" if "ps \<noteq> []"
    using that by (simp add: lower_keys_def)
  show ?thesis
  proof (cases "ps = []")
    case True
    then show ?thesis using e r f by simp
  next
    case False
    then have "fst (AnnotateContext d now ctx req) =
        Returned (Some (NewContext ctx' (lower_keys ps))) None" using r by simp
    then show ?thesis using e False n[OF False] FromContext_NewContext by blast
  qed
qed

theorem metadata_attached_iff_pairs_witness:
  "fst (AnnotateContext 0 1000 Background \<lparr>Header = [], Host = [], RemoteAddr = []\<rparr>) =
     Returned (Some Background) None \<and>
   FromContext Background = None \<and>
   fst (AnnotateContext 0 1000 (NewContext (WithDeadline Background 7) [(''old'', ''x'')])
          \<lparr>Header = [], Host = [], RemoteAddr = []\<rparr>) =
     Returned (Some (NewContext (WithDeadline Background 7) [(''old'', ''x'')])) None \<and>
   (\<exists>md. md \<noteq> [] \<and>
      fst (AnnotateContext 0 1000 Background
            \<lparr>Header = [], Host = ''example.com'', RemoteAddr = []\<rparr>) =
        Returned (Some (NewContext Background md)) None \<and>
      FromContext (NewContext Background md) = Some md)"
proof -
  let ?r1 = "\<lparr>Header = [], Host = [], RemoteAddr = []\<rparr>"
  let ?r2 = "\<lparr>Header = [], Host = ''example.com'', RemoteAddr = []\<rparr>"
  let ?p = "NewContext (WithDeadline Background 7) [(''old'', ''x'')]"
  have e1: "effective_timeout 0 ?r1 = Inr 0" and e2: "effective_timeout 0 ?r2 = Inr 0"
    by (simp_all add: effective_timeout_def Header_Get_def)
  have c: "Background = (if (0 :: duration) \<noteq> 0 then WithTimeout 1000 Background 0 else Background)"
    by simp
  have c': "?p = (if (0 :: duration) \<noteq> 0 then WithTimeout 1000 ?p 0 else ?p)"
    by simp
  have p1: "fst (collect_pairs ?r1) = []"
    by (simp add: collect_pairs_def forwarded_for_def forwarded_host_def Header_Get_def)
  have p2: "fst (collect_pairs ?r2) \<noteq> []"
    by (simp add: collect_pairs_def forwarded_for_def forwarded_host_def Header_Get_def)
  show ?thesis
    using metadata_attached_iff_pairs [OF e1 c] metadata_attached_iff_pairs [OF e1 c']
      metadata_attached_iff_pairs [OF e2 c] p1 p2
    by (simp add: FromContext_def)
qed

text \<open>
  A context that carries a metadata set before the call keeps it: with no pairs
  collected the given context is returned, and reading its metadata gives the set
  it came with, not absent.
\<close>

theorem metadata_inherited_counterexample:
  "fst (collect_pairs \<lparr>Header = [], Host = [], RemoteAddr = []\<rparr>) = [] \<and>
   fst (AnnotateContext 0 1000 (NewContext Background [(''old'', ''x'')])
          \<lparr>Header = [], Host = [], RemoteAddr = []\<rparr>) =
     Returned (Some (NewContext Background [(''old'', ''x'')])) None \<and>
   FromContext (NewContext Background [(''old'', ''x'')]) = Some [(''old'', ''x'')]"
  by (simp add: AnnotateContext_def effective_timeout_def collect_pairs_def forwarded_for_def
      forwarded_host_def Header_Get_def FromContext_def NewContext_def)

text \<open>
  C10. When the first \<open>Grpc-Timeout\<close> value of the request is non-empty and decodes
  to the zero duration, \<open>AnnotateContext\<close> does what it does on the request without
  that header under a zero default timeout: it returns a context and no error, and
  the deadline of that context is the deadline of the context it was given.
\<close>

theorem AnnotateContext_zero_timeout:
  assumes "Header_Get (Header req) metadataGrpcTimeout = tm" and "tm \<noteq> []"
    and "timeoutDecode tm = Inr 0"
  shows "AnnotateContext d now ctx req = AnnotateContext 0 now ctx (without_timeout_header req) \<and>
         (\<exists>c. fst (AnnotateContext d now ctx req) = Returned (Some c) None \<and>
              Deadline c = Deadline ctx)"
proof
  have e: "effective_timeout d req = Inr 0"
    using assms by (simp add: effective_timeout_def)
  show "AnnotateContext d now ctx req = AnnotateContext 0 now ctx (without_timeout_header req)"
    by (simp add: AnnotateContext_def e effective_timeout_without collect_pairs_without)
  define ps where "ps = header_projection (Header req) @ forwarding_annotation req"
  define c where "c = (if ps = [] then ctx else NewContext ctx (lower_keys ps))"
  have "fst (AnnotateContext d now ctx req) = Returned (Some c) None"
    using AnnotateContext_ok[OF e ps_def refl, of now ctx] by (simp add: c_def)
  moreover have "Deadline c = Deadline ctx"
    by (simp add: c_def Deadline_NewContext)
  ultimately show "\<exists>c. fst (AnnotateContext d now ctx req) = Returned (Some c) None \<and>
             Deadline c = Deadline ctx"
    by blast
qed

theorem AnnotateContext_zero_timeout_witness:
  "AnnotateContext 5000000000 1000 Background
     \<lparr>Header = [(''Grpc-Timeout'', [''0S''])], Host = ''example.com'', RemoteAddr = []\<rparr> =
   AnnotateContext 0 1000 Background
     (without_timeout_header
        \<lparr>Header = [(''Grpc-Timeout'', [''0S''])], Host = ''example.com'', RemoteAddr = []\<rparr>) \<and>
   (\<exists>c. fst (AnnotateContext 5000000000 1000 Background
              \<lparr>Header = [(''Grpc-Timeout'', [''0S''])], Host = ''example.com'',
               RemoteAddr = []\<rparr>) = Returned (Some c) None \<and>
        Deadline c = None)"
proof -
  let ?r = "\<lparr>Header = [(''Grpc-Timeout'', [''0S''])], Host = ''example.com'', RemoteAddr = []\<rparr>"
  have g: "Header_Get (Header ?r) metadataGrpcTimeout = ''0S''"
    by (simp add: Header_Get_def metadataGrpcTimeout_def)
  have n: "''0S'' \<noteq> []" by simp
  show ?thesis
    using AnnotateContext_zero_timeout [OF g n decode_0S, of 5000000000 1000 Background]
    unfolding Deadline.simps(1) .
qed

section \<open>The claim about the server metadata carrier\<close>

text \<open>
  C9 (as amended). Retrieving from the context that \<open>NewServerMetadataContext\<close>
  derives, or from any context derived from that without a further attachment, gives
  the carrier that was attached and \<open>true\<close>; retrieving from a context with no
  attachment on its chain gives the zero carrier and \<open>false\<close>.
\<close>

theorem ServerMetadata_attach_retrieve:
  "(derived_keeping (NewServerMetadataContext ctx md) c \<longrightarrow>
      ServerMetadataFromContext c = (md, True)) \<and>
   (never_attached c \<longrightarrow>
      ServerMetadataFromContext c = (\<lparr>HeaderMD = [], TrailerMD = []\<rparr>, False))"
proof (intro conjI impI)
  assume "derived_keeping (NewServerMetadataContext ctx md) c"
  from Value_derived_keeping[OF this]
  show "ServerMetadataFromContext c = (md, True)"
    by (simp add: ServerMetadataFromContext_def NewServerMetadataContext_def)
next
  assume "never_attached c"
  from Value_never_attached[OF this]
  show "ServerMetadataFromContext c = (\<lparr>HeaderMD = [], TrailerMD = []\<rparr>, False)"
    by (simp add: ServerMetadataFromContext_def)
qed

theorem ServerMetadata_attach_retrieve_witness:
  "ServerMetadataFromContext
     (WithDeadline
        (NewServerMetadataContext Background \<lparr>HeaderMD = [(''k'', ''v'')], TrailerMD = []\<rparr>) 5) =
     (\<lparr>HeaderMD = [(''k'', ''v'')], TrailerMD = []\<rparr>, True) \<and>
   ServerMetadataFromContext (WithDeadline Background 5) =
     (\<lparr>HeaderMD = [], TrailerMD = []\<rparr>, False)"
  using ServerMetadata_attach_retrieve
      [of Background "\<lparr>HeaderMD = [(''k'', ''v'')], TrailerMD = []\<rparr>"
          "WithDeadline
             (NewServerMetadataContext Background \<lparr>HeaderMD = [(''k'', ''v'')], TrailerMD = []\<rparr>) 5"]
    ServerMetadata_attach_retrieve
      [of Background "\<lparr>HeaderMD = [], TrailerMD = []\<rparr>" "WithDeadline Background 5"]
  by (simp add: NewServerMetadataContext_def)

text \<open>
  A second attachment on the way hides the first: the context below descends from
  the one the first carrier was attached to, and retrieving gives the second carrier.
\<close>

theorem ServerMetadata_reattach_counterexample:
  "descendant
     (NewServerMetadataContext Background \<lparr>HeaderMD = [(''k'', ''v'')], TrailerMD = []\<rparr>)
     (NewServerMetadataContext
        (NewServerMetadataContext Background \<lparr>HeaderMD = [(''k'', ''v'')], TrailerMD = []\<rparr>)
        \<lparr>HeaderMD = [], TrailerMD = []\<rparr>) \<and>
   ServerMetadataFromContext
     (NewServerMetadataContext
        (NewServerMetadataContext Background \<lparr>HeaderMD = [(''k'', ''v'')], TrailerMD = []\<rparr>)
        \<lparr>HeaderMD = [], TrailerMD = []\<rparr>) =
     (\<lparr>HeaderMD = [], TrailerMD = []\<rparr>, True) \<and>
   \<lparr>HeaderMD = [], TrailerMD = []\<rparr> \<noteq> \<lparr>HeaderMD = [(''k'', ''v'')], TrailerMD = []\<rparr>"
  by (simp add: NewServerMetadataContext_def ServerMetadataFromContext_def)

end
